theory Spec2Isabelle
  imports Complex_Main "HOL-Library.Word" "HOL-Library.Sublist" "HOL-Library.Log_Nat"
begin

unbundle bit_operations_syntax

section \<open>Bytes, keys and buffers\<close>

type_synonym byte = "8 word"
type_synonym u16 = "16 word"
type_synonym u32 = "32 word"

text \<open>
  \<^verbatim>\<open>std::array<uint8_t, 4>\<close>: the mesh key and the fixed header key. Every read in the
  source is \<^verbatim>\<open>key[i & 3]\<close> or \<^verbatim>\<open>key[3]\<close>, so the index is always in range.
\<close>

datatype key4 = Key4 byte byte byte byte

fun key_at :: "key4 \<Rightarrow> nat \<Rightarrow> byte" where
  "key_at (Key4 a b c d) i =
     (if i = 0 then a else if i = 1 then b else if i = 2 then c else d)"

text \<open>
  \<^verbatim>\<open>std::copy(src.begin(), src.end(), dst.begin() + off)\<close>, written as the loop it is:
  element \<open>i\<close> of the source goes to position \<open>off + i\<close>. Callers check that
  \<open>off + length src \<le> length dst\<close> before using it (the C++ write past the end is
  undefined).
\<close>

definition copy_into :: "byte list \<Rightarrow> byte list \<Rightarrow> nat \<Rightarrow> byte list" where
  "copy_into src dst off = foldl (\<lambda>b i. b[off + i := src ! i]) dst [0..<length src]"

section \<open>Packet codec: \<^verbatim>\<open>FastconController::generate_command\<close>\<close>

text \<open>
  \<^verbatim>\<open>body[1] = sequence++; if (sequence >= 255) sequence = 1;\<close> on the static
  \<^verbatim>\<open>uint8_t sequence\<close>: the value after one call.
\<close>

definition next_sequence :: "byte \<Rightarrow> byte" where
  "next_sequence s = (let s' = s + 1 in if s' \<ge> 255 then 1 else s')"

text \<open>
  \<^verbatim>\<open>uint8_t i2 = (light_id_ / 256);\<close>
  \<^verbatim>\<open>body[0] = (i2 & 0b1111) | ((n & 0b111) << 4) | (forward ? 0x80 : 0);\<close>
\<close>

definition header0 :: "byte \<Rightarrow> u32 \<Rightarrow> bool \<Rightarrow> byte" where
  "header0 n light_id forward =
     (let i2 = (ucast (light_id div 256) :: byte)
      in (i2 AND 0xF) OR push_bit 4 (n AND 0x7) OR (if forward then 0x80 else 0))"

text \<open>
  The checksum loop: \<^verbatim>\<open>for (i = 0; i < body.size(); i++) if (i != 3) checksum += body[i];\<close>
  on a \<^verbatim>\<open>uint8_t\<close> accumulator.
\<close>

definition checksum_of :: "byte list \<Rightarrow> byte" where
  "checksum_of body = foldl (\<lambda>c i. if i \<noteq> 3 then c + body ! i else c) 0 [0..<length body]"

text \<open>
  The two encryption loops. The header key \<^verbatim>\<open>DEFAULT_ENCRYPT_KEY\<close> is declared in
  \<^verbatim>\<open>protocol.h\<close>, which is not among the verified sources; it is a parameter \<open>ek\<close>.
\<close>

definition encrypt_header :: "key4 \<Rightarrow> byte list \<Rightarrow> byte list" where
  "encrypt_header ek body = foldl (\<lambda>b i. b[i := key_at ek (i mod 4) XOR b ! i]) body [0..<4]"

definition encrypt_data :: "key4 \<Rightarrow> nat \<Rightarrow> byte list \<Rightarrow> byte list" where
  "encrypt_data mk n body =
     foldl (\<lambda>b i. b[4 + i := key_at mk (i mod 4) XOR b ! (4 + i)]) body [0..<n]"

text \<open>
  The command body as it stands before the RF framing step (source lines up to the second
  encryption loop), together with the new value of the static sequence counter.
\<close>

definition command_body :: "key4 \<Rightarrow> key4 \<Rightarrow> byte \<Rightarrow> byte \<Rightarrow> u32 \<Rightarrow> byte list \<Rightarrow> bool
    \<Rightarrow> byte list \<times> byte" where
  "command_body ek mesh_key sequence n light_id data forward =
     (let body0 = replicate (length data + 4) 0;
          body1 = body0[0 := header0 n light_id forward];
          body2 = body1[1 := sequence];
          sequence' = next_sequence sequence;
          body3 = body2[2 := key_at mesh_key 3];
          body4 = copy_into data body3 4;
          checksum = checksum_of body4;
          body5 = body4[3 := checksum];
          body6 = encrypt_header ek body5;
          body7 = encrypt_data mesh_key (length data) body6
      in (body7, sequence'))"

text \<open>
  \<^verbatim>\<open>prepare_payload\<close> and \<^verbatim>\<open>DEFAULT_BLE_FASTCON_ADDRESS\<close> belong to the RF framing code
  (\<^verbatim>\<open>protocol.h\<close>), outside the verified sources: they are the parameters \<open>pp\<close> and
  \<open>addr\<close>.
\<close>

definition generate_command ::
  "(byte list \<Rightarrow> byte list \<Rightarrow> byte list) \<Rightarrow> byte list \<Rightarrow> key4 \<Rightarrow> key4 \<Rightarrow> byte \<Rightarrow> byte \<Rightarrow> u32
    \<Rightarrow> byte list \<Rightarrow> bool \<Rightarrow> byte list \<times> byte" where
  "generate_command pp addr ek mesh_key sequence n light_id data forward =
     (case command_body ek mesh_key sequence n light_id data forward of
        (body, sequence') \<Rightarrow> (pp addr body, sequence'))"

text \<open>
  Successive calls share the static counter: the bodies produced by a list of calls, the
  counter threaded from one call to the next.
\<close>

record call =
  call_n :: byte
  call_light_id :: u32
  call_data :: "byte list"
  call_forward :: bool

fun command_bodies :: "key4 \<Rightarrow> key4 \<Rightarrow> byte \<Rightarrow> call list \<Rightarrow> byte list list" where
  "command_bodies ek mesh_key sequence [] = []"
| "command_bodies ek mesh_key sequence (c # cs) =
     (case command_body ek mesh_key sequence (call_n c) (call_light_id c) (call_data c)
             (call_forward c) of
        (body, sequence') \<Rightarrow> body # command_bodies ek mesh_key sequence' cs)"

text \<open>
  Reading a body back, in the words of the specification: header bytes 0 to 3 are XORed
  with the fixed constant keyed by index mod 4, payload bytes with the mesh key keyed by
  (payload) index mod 4; the sum of all decrypted bytes except index 3 is taken modulo 256.
\<close>

definition decrypt :: "key4 \<Rightarrow> key4 \<Rightarrow> byte list \<Rightarrow> byte list" where
  "decrypt ek mesh_key frame =
     map (\<lambda>i. if i < 4 then frame ! i XOR key_at ek (i mod 4)
               else frame ! i XOR key_at mesh_key ((i - 4) mod 4)) [0..<length frame]"

definition sum_except3 :: "byte list \<Rightarrow> nat" where
  "sum_except3 bs = sum_list (map (\<lambda>i. unat (bs ! i)) (filter (\<lambda>i. i \<noteq> 3) [0..<length bs])) mod 256"

text \<open>The body as it stands just before the two encryption loops.\<close>

definition plain_body :: "key4 \<Rightarrow> byte \<Rightarrow> byte \<Rightarrow> u32 \<Rightarrow> byte list \<Rightarrow> bool \<Rightarrow> byte list" where
  "plain_body mesh_key sequence n light_id data forward =
     (let body = copy_into data
                   ((replicate (length data + 4) 0)
                      [0 := header0 n light_id forward, 1 := sequence, 2 := key_at mesh_key 3]) 4
      in body[3 := checksum_of body])"

text \<open>The sequence byte of a body: header byte 1 with the header encryption undone.\<close>

definition sequence_byte :: "key4 \<Rightarrow> byte list \<Rightarrow> byte" where
  "sequence_byte ek body = key_at ek 1 XOR body ! 1"

section \<open>\<^verbatim>\<open>FastconController::single_control\<close>\<close>

text \<open>
  The inner payload is a 12-byte vector; \<^verbatim>\<open>std::copy\<close> of more than 10 bytes of light
  data would write past its end (undefined in C++), which the model reports as \<open>None\<close>.
  \<^verbatim>\<open>light_data.size()\<close> is a \<^verbatim>\<open>size_t\<close> (32 bits on the ESP32 this component targets);
  the expression is truncated to a byte by the assignment, as is \<^verbatim>\<open>light_id_\<close>.
\<close>

definition inner_payload :: "u32 \<Rightarrow> byte list \<Rightarrow> byte list" where
  "inner_payload light_id light_data =
     (let result_data0 = replicate 12 0;
          result_data1 = result_data0
             [0 := ucast (2 OR push_bit 4 (0xfffffff AND (of_nat (length light_data) + 1 :: u32)))];
          result_data2 = result_data1[1 := ucast light_id]
      in copy_into light_data result_data2 2)"

definition single_control ::
  "(byte list \<Rightarrow> byte list \<Rightarrow> byte list) \<Rightarrow> byte list \<Rightarrow> key4 \<Rightarrow> key4 \<Rightarrow> byte \<Rightarrow> u32
    \<Rightarrow> byte list \<Rightarrow> (byte list \<times> byte) option" where
  "single_control pp addr ek mesh_key sequence light_id light_data =
     (if length light_data > 10 then None
      else Some (generate_command pp addr ek mesh_key sequence 5 light_id
                   (inner_payload light_id light_data) True))"

section \<open>Controller state\<close>

text \<open>
  The fields of \<^verbatim>\<open>FastconController\<close> (the member names of the source, without their
  trailing underscore) and the three function-local statics: \<open>sequence\<close> of
  \<^verbatim>\<open>generate_command\<close>, \<open>counter\<close> of \<^verbatim>\<open>build_discovery_advertisement\<close> and
  \<open>pairing_counter\<close> of \<^verbatim>\<open>build_pairing_advertisement\<close>. The pairing members are
  declared in a header that is not among the verified sources; their widths follow the
  values assigned to them (\<^verbatim>\<open>uint32_t\<close> light ids and \<^verbatim>\<open>millis()\<close> times, a byte for
  \<^verbatim>\<open>sequence_counter_\<close>).
\<close>

record command =
  cmd_data :: "byte list"
  cmd_timestamp :: u32
  cmd_retries :: byte

datatype AdvertiseState = IDLE | ADVERTISING | GAP

datatype PairingPhase = DISCOVERY | PAIRING

record controller =
  queue :: "command list"
  max_queue_size :: nat
  adv_state :: AdvertiseState
  state_start_time :: u32
  mesh_key :: key4
  adv_interval_min :: u16
  adv_interval_max :: u16
  adv_duration :: u16
  adv_gap :: u16
  pairing_mode :: bool
  pairing_start_time :: u32
  pairing_phase :: PairingPhase
  pairing_phase_start :: u32
  pairing_light_id :: u32
  pairing_base_light_id :: u32
  sequence_counter :: byte
  sequence :: byte
  counter :: byte
  pairing_counter :: byte

text \<open>
  What a call does besides changing the controller: the warnings it logs (\<^verbatim>\<open>ESP_LOGW\<close>;
  the verbose, debug and info lines are left out) and the calls it makes to the radio, in
  order. The radio's answers to \<^verbatim>\<open>esp_ble_gap_config_adv_data_raw\<close> and
  \<^verbatim>\<open>esp_ble_gap_start_advertising\<close> are inputs of a tick (\<^verbatim>\<open>esp_err_t\<close>, \<^verbatim>\<open>ESP_OK\<close> is 0).
\<close>

datatype effect =
    LOGW string
  | stop_advertising
  | config_adv_data_raw "byte list"
  | start_advertising u16 u16
  | start_scanning u32
  | stop_scanning

record radio =
  config_err :: int
  start_err :: int

definition ESP_OK :: int where
  "ESP_OK = 0"

section \<open>Command queue: \<^verbatim>\<open>queueCommand\<close>, \<^verbatim>\<open>clear_queue\<close>\<close>

text \<open>\<open>now\<close> is the value of \<^verbatim>\<open>millis()\<close>. The front of the \<^verbatim>\<open>std::queue\<close> is the head of the list.\<close>

definition queueCommand :: "u32 \<Rightarrow> u32 \<Rightarrow> byte list \<Rightarrow> controller \<Rightarrow> controller \<times> effect list" where
  "queueCommand now light_id data c =
     (if length (queue c) \<ge> max_queue_size c
      then (c, [LOGW ''Command queue full, dropping command''])
      else (c\<lparr>queue := queue c @ [\<lparr>cmd_data = data, cmd_timestamp = now, cmd_retries = 0\<rparr>]\<rparr>, []))"

text \<open>A series of calls of \<^verbatim>\<open>queueCommand\<close>, each with its time, light id and data.\<close>

fun queueCommands :: "(u32 \<times> u32 \<times> byte list) list \<Rightarrow> controller \<Rightarrow> controller" where
  "queueCommands [] c = c"
| "queueCommands ((now, light_id, data) # rest) c =
     queueCommands rest (fst (queueCommand now light_id data c))"

definition clear_queue :: "controller \<Rightarrow> controller" where
  "clear_queue c = c\<lparr>queue := []\<rparr>"

section \<open>Transmission scheduler: the \<^verbatim>\<open>switch (adv_state_)\<close> of \<^verbatim>\<open>loop\<close>\<close>

text \<open>
  Constants of the ESP-IDF headers (\<^verbatim>\<open>esp_gap_ble_api.h\<close>), not part of this repository:
  the AD type of the flags field, the two flag bits and the AD type of manufacturer data.
\<close>

definition ESP_BLE_AD_TYPE_FLAG :: byte where
  "ESP_BLE_AD_TYPE_FLAG = 0x01"

definition ESP_BLE_ADV_FLAG_GEN_DISC :: byte where
  "ESP_BLE_ADV_FLAG_GEN_DISC = 0x02"

definition ESP_BLE_ADV_FLAG_BREDR_NOT_SPT :: byte where
  "ESP_BLE_ADV_FLAG_BREDR_NOT_SPT = 0x04"

definition ESP_BLE_AD_MANUFACTURER_SPECIFIC_TYPE :: byte where
  "ESP_BLE_AD_MANUFACTURER_SPECIFIC_TYPE = 0xFF"

definition MANUFACTURER_DATA_ID :: u16 where
  "MANUFACTURER_DATA_ID = 0xfff0"

text \<open>
  The raw advertisement handed to the radio: the first \<^verbatim>\<open>adv_data_len\<close> bytes of the
  31-byte buffer \<^verbatim>\<open>adv_data_raw\<close>. The caller checks that the command fits (24 bytes).
\<close>

definition scheduler_adv_data :: "byte list \<Rightarrow> byte list" where
  "scheduler_adv_data data =
     (let adv_data_raw = (replicate 31 0)
            [0 := 2,
             1 := ESP_BLE_AD_TYPE_FLAG,
             2 := ESP_BLE_ADV_FLAG_BREDR_NOT_SPT OR ESP_BLE_ADV_FLAG_GEN_DISC,
             3 := of_nat (length data) + 2,
             4 := ESP_BLE_AD_MANUFACTURER_SPECIFIC_TYPE,
             5 := ucast (MANUFACTURER_DATA_ID AND 0xFF),
             6 := ucast (drop_bit 8 MANUFACTURER_DATA_ID AND 0xFF)];
          adv_data_len = 7 + length data
      in take adv_data_len (copy_into data adv_data_raw 7))"

text \<open>
  One pass through the switch. \<open>None\<close> stands for the \<^verbatim>\<open>memcpy\<close> of a command longer than
  the 24 bytes left in \<^verbatim>\<open>adv_data_raw\<close>, which is undefined in C++.
\<close>

definition scheduler_tick :: "u32 \<Rightarrow> radio \<Rightarrow> controller \<Rightarrow> (controller \<times> effect list) option" where
  "scheduler_tick now r c =
     (case adv_state c of
        IDLE \<Rightarrow>
          (case queue c of
             [] \<Rightarrow> Some (c, [])
           | cmd # rest \<Rightarrow>
               if length (cmd_data cmd) > 24 then None
               else
                 let c1 = c\<lparr>queue := rest\<rparr>;
                     cfg = config_adv_data_raw (scheduler_adv_data (cmd_data cmd));
                     start = start_advertising (adv_interval_min c) (adv_interval_max c)
                 in if config_err r \<noteq> ESP_OK
                    then Some (c1, [cfg, LOGW ''Error setting raw advertisement data''])
                    else if start_err r \<noteq> ESP_OK
                    then Some (c1, [cfg, start, LOGW ''Error starting advertisement''])
                    else Some (c1\<lparr>adv_state := ADVERTISING, state_start_time := now\<rparr>,
                               [cfg, start]))
      | ADVERTISING \<Rightarrow>
          if now - state_start_time c \<ge> ucast (adv_duration c)
          then Some (c\<lparr>adv_state := GAP, state_start_time := now\<rparr>, [stop_advertising])
          else Some (c, [])
      | GAP \<Rightarrow>
          if now - state_start_time c \<ge> ucast (adv_gap c)
          then Some (c\<lparr>adv_state := IDLE\<rparr>, [])
          else Some (c, []))"

section \<open>Pairing: \<^verbatim>\<open>pair_device\<close>, the advertisements and the pairing block of \<^verbatim>\<open>loop\<close>\<close>

definition pair_device :: "u32 \<Rightarrow> u32 \<Rightarrow> u32 \<Rightarrow> controller \<Rightarrow> controller \<times> effect list" where
  "pair_device now new_light_id group_id c =
     (c\<lparr>pairing_mode := True,
        pairing_start_time := now,
        pairing_light_id := new_light_id,
        pairing_base_light_id := new_light_id,
        pairing_phase := DISCOVERY,
        adv_state := IDLE\<rparr>,
      [stop_scanning, stop_advertising])"

text \<open>
  \<^verbatim>\<open>calculate_pairing_crc\<close>: the 32-bit sum of the bytes from index 13 on, times
  \<^verbatim>\<open>0x1234\<close>, masked to 24 bits.
\<close>

definition calculate_pairing_crc :: "byte list \<Rightarrow> u32" where
  "calculate_pairing_crc data =
     (let sum = foldl (\<lambda>s i. s + ucast (data ! i)) (0::u32) [13..<length data]
      in (sum * 0x1234) AND 0xFFFFFF)"

definition build_discovery_advertisement :: "controller \<Rightarrow> byte list \<times> controller" where
  "build_discovery_advertisement c =
     (let adv_data = [0x66, 0x55, 0x44, 0x33, 0x22, 0x11]
            @ [0x02, 0x01, 0x1a]
            @ [0x13] @ [0xff] @ [0xf0] @ [0xff]
            @ [0x4e]
            @ [0x6c + (counter c mod 4), 0x5a + (counter c mod 8), counter c mod 8,
               0x34, 0x8e, 0x89, 0xb5]
            @ [0xe2, 0x38, 0xa1, 0xa8, 0x5e, 0x36, 0x7b, 0xc4]
            @ [0xe9, 0x97, 0x4d]
      in (adv_data, c\<lparr>counter := counter c + 1\<rparr>))"

definition build_pairing_advertisement :: "controller \<Rightarrow> byte list \<times> controller" where
  "build_pairing_advertisement c =
     (let adv_data = [0x66, 0x55, 0x44, 0x33, 0x22, 0x11]
            @ [0x02, 0x01, 0x1a]
            @ [0x13] @ [0xff] @ [0xf0] @ [0xff]
            @ [0x6e]
            @ [pairing_counter c]
            @ [ucast (pairing_light_id c AND 0xFF)]
            @ [ucast (drop_bit 8 (pairing_light_id c) AND 0xFF)]
            @ [0x44, 0x10, 0x33, 0x32]
            @ [0x34, 0x0a]
            @ [0x39, 0x39]
            @ map (key_at (mesh_key c)) [0..<4];
          crc = calculate_pairing_crc adv_data;
          adv_data' = adv_data
            @ [ucast (drop_bit 16 crc AND 0xFF)]
            @ [ucast (drop_bit 8 crc AND 0xFF)]
            @ [ucast (crc AND 0xFF)]
      in (adv_data', c\<lparr>pairing_counter := pairing_counter c + 1\<rparr>))"

text \<open>The three steps of the pairing block that come before the advertising step.\<close>

definition phase_transition :: "u32 \<Rightarrow> controller \<Rightarrow> controller \<times> effect list" where
  "phase_transition now c =
     (let elapsed = now - pairing_start_time c
      in if pairing_phase c = DISCOVERY \<and> elapsed \<ge> 4000
         then (c\<lparr>pairing_phase := PAIRING, pairing_phase_start := now, adv_state := IDLE\<rparr>,
               [stop_advertising])
         else (c, []))"

definition auto_increment :: "u32 \<Rightarrow> controller \<Rightarrow> controller \<times> effect list" where
  "auto_increment now c =
     (if pairing_phase c = PAIRING
      then
        let phase_elapsed = now - pairing_phase_start c;
            current_light_slot = phase_elapsed div 5000;
            new_light_id = pairing_base_light_id c + current_light_slot
        in if new_light_id \<noteq> pairing_light_id c
           then (c\<lparr>pairing_light_id := new_light_id, sequence_counter := 0x50, adv_state := IDLE\<rparr>,
                 [stop_advertising])
           else (c, [])
      else (c, []))"

text \<open>The advertising step: \<^verbatim>\<open>// Continuously advertise during pairing mode\<close>.\<close>

definition pairing_advertise :: "u32 \<Rightarrow> radio \<Rightarrow> controller \<Rightarrow> controller \<times> effect list" where
  "pairing_advertise now r c =
     (if adv_state c = IDLE \<or> (adv_state c = ADVERTISING \<and> now - state_start_time c \<ge> 100)
      then
        let stop = (if adv_state c = ADVERTISING then [stop_advertising] else []);
            (adv_data, c1) = (if pairing_phase c = DISCOVERY
                              then build_discovery_advertisement c
                              else build_pairing_advertisement c);
            copy_len = min (length adv_data - 6) 25;
            cfg = config_adv_data_raw (take copy_len (drop 6 adv_data));
            start = start_advertising 0x20 0x40
        in if config_err r \<noteq> ESP_OK
           then (c1, stop @ [cfg, LOGW ''Error setting pairing advertisement data''])
           else if start_err r \<noteq> ESP_OK
           then (c1, stop @ [cfg, start, LOGW ''Error starting pairing advertisement''])
           else (c1\<lparr>adv_state := ADVERTISING, state_start_time := now\<rparr>, stop @ [cfg, start])
      else (c, []))"

definition pairing_tick :: "u32 \<Rightarrow> radio \<Rightarrow> controller \<Rightarrow> controller \<times> effect list" where
  "pairing_tick now r c =
     (let elapsed = now - pairing_start_time c;
          (c1, e1) = phase_transition now c;
          (c2, e2) = auto_increment now c1
      in if elapsed \<ge> 60000
         then (c2\<lparr>pairing_mode := False, adv_state := IDLE\<rparr>,
               e1 @ e2 @ [stop_advertising, start_scanning 300])
         else (case pairing_advertise now r c2 of (c3, e3) \<Rightarrow> (c3, e1 @ e2 @ e3)))"

text \<open>\<^verbatim>\<open>FastconController::loop\<close>: pairing mode takes priority over the scheduler.\<close>

definition loop :: "u32 \<Rightarrow> radio \<Rightarrow> controller \<Rightarrow> (controller \<times> effect list) option" where
  "loop now r c =
     (if pairing_mode c then Some (pairing_tick now r c) else scheduler_tick now r c)"

text \<open>
  The ASCII-hex form of a byte string, in the words of the specification: two hexadecimal
  digit characters for each byte, high nibble first.
\<close>

definition hex_digit :: "byte \<Rightarrow> byte" where
  "hex_digit d = (if d < 10 then 0x30 + d else 0x61 + (d - 10))"

definition ascii_hex :: "byte list \<Rightarrow> byte list" where
  "ascii_hex bs = concat (map (\<lambda>b. [hex_digit (drop_bit 4 b), hex_digit (b AND 0xF)]) bs)"

section \<open>Light-state encoder: \<^verbatim>\<open>FastconController::get_light_data\<close>\<close>

subsection \<open>Single-precision arithmetic\<close>

text \<open>
  The channel values are C++ \<^verbatim>\<open>float\<close>s (IEEE 754 binary32), and the source multiplies,
  adds, subtracts and divides them in that format. A finite binary32 number is a rational
  \<open>m * 2 ^ e\<close> with \<open>\<bar>m\<bar> < 2 ^ 24\<close> and \<open>- 149 \<le> e\<close>; the model takes a float as the
  rational it denotes, and every arithmetic operation as the exact result rounded to the
  nearest such number, ties to the even mantissa (the default rounding mode).

  \<open>ilog2 x\<close> is the binary exponent of a positive \<open>x\<close>, that is \<open>\<lfloor>log\<^sub>2 x\<rfloor>\<close>; for \<open>x = p / q\<close>
  in lowest terms it is the difference of the bit lengths of \<open>p\<close> and \<open>q\<close>, or one less.
  \<open>round_f32\<close> keeps 24 significant bits, fewer in the subnormal range below \<open>2 ^ - 126\<close>.

  Not represented: NaN, the infinities and the sign of zero. ESPHome keeps the channel
  values finite. A result beyond the largest finite float stays finite here where the
  machine gives infinity; for the brightness the cap \<^verbatim>\<open>std::min(..., 127.0f)\<close> gives 127 in
  both cases, and for the other channels the conversion to a byte is undefined in C++
  either way.
\<close>

type_synonym f32 = rat

definition pow2 :: "int \<Rightarrow> rat" where
  "pow2 e = (if 0 \<le> e then 2 ^ nat e else 1 / 2 ^ nat (- e))"

definition round_half_even :: "rat \<Rightarrow> int" where
  "round_half_even x =
     (let f = \<lfloor>x\<rfloor>; r = x - of_int f
      in if r < 1 / 2 then f else if 1 / 2 < r then f + 1 else if even f then f else f + 1)"

definition ilog2 :: "rat \<Rightarrow> int" where
  "ilog2 x =
     (case quotient_of x of
        (p, q) \<Rightarrow> let d = bitlen p - bitlen q in if pow2 d \<le> x then d else d - 1)"

definition round_f32 :: "rat \<Rightarrow> f32" where
  "round_f32 x =
     (if x = 0 then 0
      else let e = max (ilog2 \<bar>x\<bar> - 23) (- 149)
           in of_int (round_half_even (x / pow2 e)) * pow2 e)"

definition f32_mul :: "f32 \<Rightarrow> f32 \<Rightarrow> f32" where
  "f32_mul a b = round_f32 (a * b)"

definition f32_add :: "f32 \<Rightarrow> f32 \<Rightarrow> f32" where
  "f32_add a b = round_f32 (a + b)"

definition f32_sub :: "f32 \<Rightarrow> f32 \<Rightarrow> f32" where
  "f32_sub a b = round_f32 (a - b)"

definition f32_div :: "f32 \<Rightarrow> f32 \<Rightarrow> f32" where
  "f32_div a b = round_f32 (a / b)"

text \<open>
  \<^verbatim>\<open>static_cast<uint8_t>\<close> of a float truncates towards zero; C++ leaves it undefined
  outside the range of a byte, where the model wraps.
\<close>

definition f2u8 :: "f32 \<Rightarrow> byte" where
  "f2u8 x = word_of_int (if 0 \<le> x then \<lfloor>x\<rfloor> else \<lceil>x\<rceil>)"

subsection \<open>The encoder\<close>

text \<open>
  The snapshot \<^verbatim>\<open>state->current_values\<close>, read through the accessors the source calls.
  The capability bits are those of ESPHome's \<^verbatim>\<open>light::ColorCapability\<close>
  (\<^verbatim>\<open>color_mode.h\<close>, not part of this repository).
\<close>

record light_values =
  is_on :: bool
  get_color_mode :: byte
  get_brightness :: f32
  get_red :: f32
  get_green :: f32
  get_blue :: f32
  get_warm_white :: f32
  get_cold_white :: f32
  get_color_temperature :: f32

definition WHITE :: byte where
  "WHITE = 4"

definition COLOR_TEMPERATURE :: byte where
  "COLOR_TEMPERATURE = 8"

definition COLD_WARM_WHITE :: byte where
  "COLD_WARM_WHITE = 16"

definition RGB :: byte where
  "RGB = 32"

text \<open>
  In the interpolation the integer operands \<^verbatim>\<open>500\<close>, \<^verbatim>\<open>153\<close> and \<^verbatim>\<open>0x00\<close> are converted to
  \<^verbatim>\<open>float\<close> exactly, and \<^verbatim>\<open>(500 - 153)\<close> is the integer 347 before it is converted.
\<close>

definition get_light_data :: "light_values \<Rightarrow> byte list" where
  "get_light_data values =
     (let light_data0 = [0, 0, 0, 0, 0, 0]
      in if \<not> is_on values then [0x00]
         else
           let color_mode = get_color_mode values;
               has_white = (color_mode AND WHITE \<noteq> 0);
               brightness = min (f32_mul (get_brightness values) 127) 127;
               light_data1 = light_data0[0 := 0x80 + f2u8 brightness]
           in if has_white then [f2u8 brightness]
              else
                let has_rgb = (color_mode AND RGB \<noteq> 0);
                    light_data2 =
                      (if has_rgb
                       then light_data1[1 := f2u8 (f32_mul (get_blue values) 255),
                                        2 := f2u8 (f32_mul (get_red values) 255),
                                        3 := f2u8 (f32_mul (get_green values) 255)]
                       else light_data1);
                    has_cold_warm = (color_mode AND COLD_WARM_WHITE \<noteq> 0);
                    light_data3 =
                      (if has_cold_warm
                       then light_data2[4 := f2u8 (f32_mul (get_warm_white values) 255),
                                        5 := f2u8 (f32_mul (get_cold_white values) 255)]
                       else light_data2);
                    has_temp = (color_mode AND COLOR_TEMPERATURE \<noteq> 0);
                    temperature = get_color_temperature values
                in if has_temp
                   then
                     if temperature < 153 then light_data3[4 := 0xff, 5 := 0x00]
                     else if temperature > 500 then light_data3[4 := 0x00, 5 := 0xff]
                     else light_data3
                       [4 := f2u8 (f32_div
                                (f32_add (f32_mul (f32_sub 500 temperature) 255)
                                         (f32_mul (f32_sub temperature 153) 0))
                                347),
                        5 := f2u8 (f32_div
                                (f32_add (f32_mul (f32_sub temperature 153) 255)
                                         (f32_mul (f32_sub 500 temperature) 0))
                                347)]
                   else light_data3)"

section \<open>Debounce and deduplication of \<^verbatim>\<open>fastcon_light\<close>\<close>

text \<open>The per-light fields listed for \<^verbatim>\<open>fastcon_light.h\<close>, and its two constants.\<close>

record fastcon_light =
  last_sent_data :: "byte list"
  pending_data :: "byte list"
  last_state_change :: u32
  last_command_sent :: u32
  has_pending_command :: bool

definition DEBOUNCE_MS :: u32 where
  "DEBOUNCE_MS = 100"

definition MIN_INTERVAL_MS :: u32 where
  "MIN_INTERVAL_MS = 300"

text \<open>\<^verbatim>\<open>write_state()\<close>: the encoded command is stashed, not sent.\<close>

definition write_state :: "u32 \<Rightarrow> byte list \<Rightarrow> fastcon_light \<Rightarrow> fastcon_light" where
  "write_state now adv_data l =
     l\<lparr>pending_data := adv_data, last_state_change := now, has_pending_command := True\<rparr>"

text \<open>
  Modelled from the spec: \<^verbatim>\<open>fastcon_light.cpp\<close> is not among the sources; of its \<^verbatim>\<open>loop()\<close>
  only the excerpt quoted in \<^verbatim>\<open>OPTIMIZATION.md\<close> is available (the two timing guards, the
  duplicate test that clears the pending flag, and the call of \<^verbatim>\<open>queueCommand\<close> with the
  pending bytes). The parts around the excerpt follow section 4.6 of the specification:
  only a light with a pending command is looked at, the two times are measured from the
  last change and the last send, and after handing the command over the last-sent bytes
  and time are updated and the pending flag is cleared. The result's second component is
  the command handed to \<^verbatim>\<open>queueCommand\<close>, if any.
\<close>

definition light_loop :: "u32 \<Rightarrow> fastcon_light \<Rightarrow> fastcon_light \<times> byte list option" where
  "light_loop now l =
     (if \<not> has_pending_command l then (l, None)
      else
        let time_since_change = now - last_state_change l;
            time_since_sent = now - last_command_sent l
        in if time_since_change < DEBOUNCE_MS then (l, None)
           else if time_since_sent < MIN_INTERVAL_MS then (l, None)
           else if pending_data l = last_sent_data l
           then (l\<lparr>has_pending_command := False\<rparr>, None)
           else (l\<lparr>last_sent_data := pending_data l, last_command_sent := now,
                    has_pending_command := False\<rparr>,
                 Some (pending_data l)))"

text \<open>
  A history of one light: state updates carrying the encoded payload, and ticks of the
  polling loop. \<open>light_run\<close> collects the commands handed to the queue, in order.
\<close>

datatype light_event = Update "byte list" u32 | Tick u32

fun light_run :: "fastcon_light \<Rightarrow> light_event list \<Rightarrow> fastcon_light \<times> byte list list" where
  "light_run l [] = (l, [])"
| "light_run l (Update adv_data now # es) = light_run (write_state now adv_data l) es"
| "light_run l (Tick now # es) =
     (case light_loop now l of
        (l', sent) \<Rightarrow>
          (case light_run l' es of
             (l'', out) \<Rightarrow> (l'', (case sent of None \<Rightarrow> [] | Some d \<Rightarrow> [d]) @ out)))"

section \<open>Example states\<close>

text \<open>
  A controller as the constructor leaves it (the defaults of the header), with the mesh key
  of the documentation's example configuration, and a light with nothing sent yet.
\<close>

definition example_controller :: controller where
  "example_controller =
     \<lparr>queue = [], max_queue_size = 100, adv_state = IDLE, state_start_time = 0,
      mesh_key = Key4 0x30 0x32 0x33 0x36,
      adv_interval_min = 0x20, adv_interval_max = 0x40, adv_duration = 50, adv_gap = 10,
      pairing_mode = False, pairing_start_time = 0, pairing_phase = DISCOVERY,
      pairing_phase_start = 0, pairing_light_id = 0, pairing_base_light_id = 0,
      sequence_counter = 0, sequence = 0, counter = 0, pairing_counter = 0x50\<rparr>"

definition example_command :: command where
  "example_command = \<lparr>cmd_data = [0x8c, 0x36, 0x4d, 0xca], cmd_timestamp = 990, cmd_retries = 0\<rparr>"

definition example_light :: fastcon_light where
  "example_light =
     \<lparr>last_sent_data = [], pending_data = [], last_state_change = 0, last_command_sent = 0,
      has_pending_command = False\<rparr>"

section \<open>Properties of the packet codec\<close>

subsection \<open>Loops that update a buffer in place\<close>

lemma foldl_update_length:
  "length (foldl (\<lambda>b i. b[p i := g b i]) b0 xs) = length b0"
  by (induction xs arbitrary: b0) auto

lemma foldl_update_nth:
  "j < length b0 \<Longrightarrow>
   foldl (\<lambda>b i. b[off + i := h i (b ! (off + i))]) b0 [0..<n] ! j =
     (if off \<le> j \<and> j < off + n then h (j - off) (b0 ! j) else b0 ! j)"
proof (induction n)
  case 0
  then show ?case by auto
next
  case (Suc n)
  have len: "length (foldl (\<lambda>b i. b[off + i := h i (b ! (off + i))]) b0 [0..<n]) = length b0"
    by (rule foldl_update_length)
  show ?case
  proof (cases "j = off + n")
    case True
    with Suc len show ?thesis by simp
  next
    case False
    with Suc len show ?thesis by auto
  qed
qed

lemma foldl_cond_add:
  "foldl (\<lambda>c i. if P i then c + f i else c) (a::byte) xs = a + sum_list (map f (filter P xs))"
  by (induction xs arbitrary: a) (auto simp: add.assoc)

subsection \<open>The body, its decryption and its checksum\<close>

lemma command_body_plain:
  "fst (command_body ek mk s n lid data fwd) =
     encrypt_data mk (length data) (encrypt_header ek (plain_body mk s n lid data fwd))"
  by (simp add: command_body_def plain_body_def Let_def)

lemma command_body_sequence: "snd (command_body ek mk s n lid data fwd) = next_sequence s"
  by (simp add: command_body_def Let_def)

lemma length_copy_into: "length (copy_into src dst off) = length dst"
  unfolding copy_into_def by (rule foldl_update_length)

lemma nth_copy_into:
  "j < length dst \<Longrightarrow>
   copy_into src dst off ! j = (if off \<le> j \<and> j < off + length src then src ! (j - off) else dst ! j)"
  unfolding copy_into_def
  using foldl_update_nth [of j dst off "\<lambda>i _. src ! i" "length src"] by simp

lemma length_plain_body: "length (plain_body mk s n lid data fwd) = length data + 4"
  by (simp add: plain_body_def Let_def length_copy_into)

lemma length_encrypt_header: "length (encrypt_header ek b) = length b"
  unfolding encrypt_header_def by (rule foldl_update_length)

lemma length_encrypt_data: "length (encrypt_data mk n b) = length b"
  unfolding encrypt_data_def by (rule foldl_update_length)

lemma nth_encrypt_header:
  "j < length b \<Longrightarrow> encrypt_header ek b ! j = (if j < 4 then key_at ek (j mod 4) XOR b ! j else b ! j)"
  unfolding encrypt_header_def
  using foldl_update_nth [of j b 0 "\<lambda>i x. key_at ek (i mod 4) XOR x" 4] by simp

lemma nth_encrypt_data:
  "j < length b \<Longrightarrow>
   encrypt_data mk n b ! j =
     (if 4 \<le> j \<and> j < 4 + n then key_at mk ((j - 4) mod 4) XOR b ! j else b ! j)"
  unfolding encrypt_data_def
  using foldl_update_nth [of j b 4 "\<lambda>i x. key_at mk (i mod 4) XOR x" n] by simp

lemma length_command_body: "length (fst (command_body ek mk s n lid data fwd)) = length data + 4"
  by (simp add: command_body_plain length_encrypt_data length_encrypt_header length_plain_body)

lemma nth_command_body:
  "j < length data + 4 \<Longrightarrow>
   fst (command_body ek mk s n lid data fwd) ! j =
     (if j < 4 then key_at ek (j mod 4) XOR plain_body mk s n lid data fwd ! j
      else key_at mk ((j - 4) mod 4) XOR plain_body mk s n lid data fwd ! j)"
  by (simp add: command_body_plain nth_encrypt_data nth_encrypt_header
      length_encrypt_header length_plain_body)

lemma xor_cancel_key: "(k XOR x) XOR k = (x::byte)"
  by (simp add: xor.commute xor.left_commute)

lemma decrypt_command_body:
  "decrypt ek mk (fst (command_body ek mk s n lid data fwd)) = plain_body mk s n lid data fwd"
proof (rule nth_equalityI)
  show "length (decrypt ek mk (fst (command_body ek mk s n lid data fwd))) =
        length (plain_body mk s n lid data fwd)"
    by (simp add: decrypt_def length_command_body length_plain_body)
next
  fix j
  assume "j < length (decrypt ek mk (fst (command_body ek mk s n lid data fwd)))"
  then have j: "j < length data + 4"
    by (simp add: decrypt_def length_command_body)
  then show "decrypt ek mk (fst (command_body ek mk s n lid data fwd)) ! j =
        plain_body mk s n lid data fwd ! j"
    by (simp add: decrypt_def length_command_body nth_command_body xor_cancel_key)
qed

lemma unat_sum_list_byte:
  "unat (sum_list (map f xs) :: byte) = sum_list (map (\<lambda>i. unat (f i)) xs) mod 256"
proof (induction xs)
  case Nil
  then show ?case by simp
next
  case (Cons x xs)
  have "unat (f x + sum_list (map f xs)) = (unat (f x) + unat (sum_list (map f xs))) mod 256"
    by (simp add: unat_word_ariths)
  also have "\<dots> = (unat (f x) + sum_list (map (\<lambda>i. unat (f i)) xs) mod 256) mod 256"
    by (simp only: Cons.IH)
  also have "\<dots> = (unat (f x) + sum_list (map (\<lambda>i. unat (f i)) xs)) mod 256"
    by (rule mod_add_right_eq)
  finally show ?case by simp
qed

lemma checksum_of_unat: "unat (checksum_of body) = sum_except3 body"
  by (simp add: checksum_of_def sum_except3_def foldl_cond_add unat_sum_list_byte)

lemma sum_except3_update3: "sum_except3 (b[3 := c]) = sum_except3 b"
proof -
  have h: "map (\<lambda>i. unat (b[3 := c] ! i)) (filter (\<lambda>i. i \<noteq> 3) [0..<length b]) =
        map (\<lambda>i. unat (b ! i)) (filter (\<lambda>i. i \<noteq> 3) [0..<length b])"
    by (rule map_cong) auto
  show ?thesis by (simp only: sum_except3_def length_list_update h)
qed

lemma plain_body_checksum:
  "unat (plain_body mk s n lid data fwd ! 3) = sum_except3 (plain_body mk s n lid data fwd)"
  by (simp add: plain_body_def Let_def sum_except3_update3 length_copy_into checksum_of_unat)

text \<open>
  Claim C3. For every body built by \<^verbatim>\<open>generate_command\<close>: undo the XOR of header bytes 0 to 3
  with the fixed constant and of each payload byte with the mesh key (both keyed by index
  mod 4), add up all decrypted bytes except the one at index 3, modulo 256; the result is
  the decrypted byte at index 3.
\<close>

theorem checksum_roundtrip:
  "sum_except3 (decrypt ek mk (fst (command_body ek mk s n light_id data forward)))
     = unat (decrypt ek mk (fst (command_body ek mk s n light_id data forward)) ! 3)"
  by (simp add: decrypt_command_body plain_body_checksum)

subsection \<open>The sequence counter\<close>

lemma next_sequence_unat:
  "unat (next_sequence s) = (if unat s = 254 then 1 else if unat s = 255 then 0 else unat s + 1)"
proof -
  have b: "unat s < 256" using unsigned_less [of s, where ?'a = nat] by simp
  have u: "unat (s + 1) = (unat s + 1) mod 256" by (simp add: unat_word_ariths)
  show ?thesis
  proof (cases "unat s = 254")
    case True
    with u have "unat (s + 1) = 255" by simp
    then have "s + 1 \<ge> 255" by (simp add: word_le_nat_alt)
    then show ?thesis using True by (simp add: next_sequence_def Let_def)
  next
    case F1: False
    show ?thesis
    proof (cases "unat s = 255")
      case True
      with u have z: "unat (s + 1) = 0" by simp
      then have "\<not> s + 1 \<ge> 255" by (simp add: word_le_nat_alt)
      then show ?thesis using True z by (simp add: next_sequence_def Let_def)
    next
      case False
      with F1 b have lt: "unat s + 1 < 255" by arith
      with u have z: "unat (s + 1) = unat s + 1" by simp
      with lt have "\<not> s + 1 \<ge> 255" by (simp add: word_le_nat_alt)
      then show ?thesis using False F1 z by (simp add: next_sequence_def Let_def)
    qed
  qed
qed

lemma iter_sequence:
  "unat ((next_sequence ^^ k) 0) = (if k = 0 then 0 else (k - 1) mod 254 + 1)"
proof (induction k)
  case 0
  then show ?case by simp
next
  case (Suc k)
  show ?case
  proof (cases "k = 0")
    case True
    then show ?thesis by (simp add: next_sequence_unat)
  next
    case False
    then obtain m where k: "k = Suc m" by (cases k) auto
    have r: "m mod 254 < 254" by simp
    from Suc k have u: "unat ((next_sequence ^^ k) 0) = m mod 254 + 1" by simp
    have "Suc m mod 254 = (if m mod 254 = 253 then 0 else m mod 254 + 1)"
      by (simp add: mod_Suc)
    with u r show ?thesis
      by (simp add: next_sequence_unat k)
  qed
qed

lemma command_bodies_nth:
  "i < length calls \<Longrightarrow>
   command_bodies ek mk s calls ! i =
     fst (command_body ek mk ((next_sequence ^^ i) s) (call_n (calls ! i))
            (call_light_id (calls ! i)) (call_data (calls ! i)) (call_forward (calls ! i)))"
proof (induction calls arbitrary: s i)
  case Nil
  then show ?case by simp
next
  case (Cons c cs)
  obtain body s' where cb: "command_body ek mk s (call_n c) (call_light_id c) (call_data c) (call_forward c) = (body, s')"
    by (cases "command_body ek mk s (call_n c) (call_light_id c) (call_data c) (call_forward c)")
  then have s': "s' = next_sequence s"
    using command_body_sequence [of ek mk s "call_n c" "call_light_id c" "call_data c" "call_forward c"]
    by simp
  show ?case
  proof (cases i)
    case 0
    with cb show ?thesis by simp
  next
    case (Suc k)
    with Cons.prems have "k < length cs" by simp
    from Cons.IH [OF this, of s'] cb s' Suc show ?thesis
      by (simp add: funpow_swap1)
  qed
qed

lemma plain_body_1: "plain_body mk s n lid data fwd ! 1 = s"
  by (simp add: plain_body_def Let_def length_copy_into nth_copy_into)

lemma command_body_1: "key_at ek 1 XOR fst (command_body ek mk s n lid data fwd) ! 1 = s"
proof -
  have "fst (command_body ek mk s n lid data fwd) ! 1 = key_at ek 1 XOR s"
    using plain_body_1 [of mk s n lid data fwd] by (simp add: nth_command_body)
  then show ?thesis by (simp add: xor.assoc [symmetric])
qed

text \<open>
  Claim C2. Over successive calls of \<^verbatim>\<open>generate_command\<close>, starting with the static counter
  at 0, the sequence byte of call number \<open>i\<close> (header byte 1 before the header encryption)
  is 0 for the first call and \<open>(i - 1) mod 254 + 1\<close> afterwards, that is
  0, 1, 2, ..., 254, 1, 2, ..., 254, 1, ...: it is never 255 and never 0 again.
\<close>

theorem sequence_byte_cycle:
  assumes "i < length calls"
  shows "unat (sequence_byte ek (command_bodies ek mk 0 calls ! i)) =
           (if i = 0 then 0 else (i - 1) mod 254 + 1)
         \<and> sequence_byte ek (command_bodies ek mk 0 calls ! i) \<noteq> 255
         \<and> (0 < i \<longrightarrow> sequence_byte ek (command_bodies ek mk 0 calls ! i) \<noteq> 0)"
proof -
  have s: "sequence_byte ek (command_bodies ek mk 0 calls ! i) = (next_sequence ^^ i) 0"
    using assms command_body_1 [of ek mk "(next_sequence ^^ i) 0"]
    by (simp add: sequence_byte_def command_bodies_nth)
  have u: "unat ((next_sequence ^^ i) 0) = (if i = 0 then 0 else (i - 1) mod 254 + 1)"
    by (rule iter_sequence)
  have r: "(i - 1) mod 254 < 254" by simp
  have n255: "(next_sequence ^^ i) 0 \<noteq> 255"
  proof
    assume "(next_sequence ^^ i) 0 = 255"
    then have "unat ((next_sequence ^^ i) 0) = 255" by simp
    with u r show False by (simp split: if_splits)
  qed
  have n0: "0 < i \<longrightarrow> (next_sequence ^^ i) 0 \<noteq> 0"
  proof (intro impI notI)
    assume "0 < i" and "(next_sequence ^^ i) 0 = 0"
    then have "unat ((next_sequence ^^ i) 0) = 0" by simp
    with u \<open>0 < i\<close> show False by simp
  qed
  from s u n255 n0 show ?thesis by simp
qed

theorem sequence_byte_cycle_witness:
  "unat (sequence_byte (Key4 0x5e 0x36 0x7b 0xc4)
      (command_bodies (Key4 0x5e 0x36 0x7b 0xc4) (Key4 0x30 0x32 0x33 0x36) 0
         (replicate 256 \<lparr>call_n = 5, call_light_id = 1, call_data = [0x22, 1, 0], call_forward = True\<rparr>)
       ! 255)) = 1"
  using sequence_byte_cycle [of 255
      "replicate 256 \<lparr>call_n = 5, call_light_id = 1, call_data = [0x22, 1, 0], call_forward = True\<rparr>"
      "Key4 0x5e 0x36 0x7b 0xc4" "Key4 0x30 0x32 0x33 0x36"]
  by simp

subsection \<open>The light id in a control frame\<close>

lemma ucast_low: 
  assumes "unat (a::u32) mod 4096 = unat (b::u32) mod 4096"
  shows "(ucast a :: byte) = ucast b"
    and "(ucast (a div 256) :: byte) AND 0xF = ucast (b div 256) AND 0xF"
proof -
  have t: "take_bit 12 a = take_bit 12 b"
    using assms by (simp add: word_eq_iff_unsigned [where ?'a = nat] unsigned_take_bit_eq take_bit_eq_mod unat_mod)
  have bits: "bit a k = bit b k" if "k < 12" for k
    using t that by (metis bit_take_bit_iff)
  show "(ucast a :: byte) = ucast b"
    by (rule bit_eqI) (auto simp: bit_simps bits)
  have d: "a div 256 = drop_bit 8 a" "b div 256 = drop_bit 8 b"
    by (simp_all add: drop_bit_eq_div)
  have m: "(0xF :: byte) = mask 4" by (simp add: mask_eq_exp_minus_1)
  show "(ucast (a div 256) :: byte) AND 0xF = ucast (b div 256) AND 0xF"
    unfolding d m
    by (rule bit_eqI) (auto simp: bit_simps bits)
qed

text \<open>
  Claim C10. Two light ids that are congruent modulo 4096 give the same frame (and the same
  next counter value) from \<^verbatim>\<open>single_control\<close>, for the same light data, sequence counter,
  keys and framing step.
\<close>

theorem single_control_low12:
  assumes "unat light_id mod 4096 = unat light_id' mod 4096"
  shows "single_control pp addr ek mk s light_id light_data =
         single_control pp addr ek mk s light_id' light_data"
  using ucast_low [OF assms]
  by (simp add: single_control_def generate_command_def command_body_def inner_payload_def
      header0_def Let_def)

theorem single_control_low12_witness:
  "single_control (\<lambda>a b. a @ b) [0xC1, 0xC2, 0xC3] (Key4 0x5e 0x36 0x7b 0xc4)
      (Key4 0x30 0x32 0x33 0x36) 7 0x1234 [0x80, 1, 2]
   = single_control (\<lambda>a b. a @ b) [0xC1, 0xC2, 0xC3] (Key4 0x5e 0x36 0x7b 0xc4)
      (Key4 0x30 0x32 0x33 0x36) 7 0x71234 [0x80, 1, 2]"
  using single_control_low12 [of "0x1234" "0x71234" "\<lambda>a b. a @ b" "[0xC1, 0xC2, 0xC3]"
      "Key4 0x5e 0x36 0x7b 0xc4" "Key4 0x30 0x32 0x33 0x36" 7 "[0x80, 1, 2]"]
  by simp

section \<open>Properties of the command queue\<close>

text \<open>
  Claim C4. When the queue holds at least \<open>max_queue_size\<close> entries, \<^verbatim>\<open>queueCommand\<close> returns
  at once with the controller unchanged and one warning logged: the new command is dropped
  and no older entry is evicted. In every case the old queue is a prefix of the new one,
  and a queue within the maximum stays within it, after one call and after any series of
  calls.
\<close>

lemma queueCommands_bounded:
  "length (queue c) \<le> max_queue_size c \<Longrightarrow>
   length (queue (queueCommands cmds c)) \<le> max_queue_size (queueCommands cmds c)
   \<and> max_queue_size (queueCommands cmds c) = max_queue_size c"
proof (induction cmds arbitrary: c)
  case Nil
  then show ?case by simp
next
  case (Cons cmd cmds)
  obtain now light_id data where cmd: "cmd = (now, light_id, data)" by (cases cmd)
  let ?c' = "fst (queueCommand now light_id data c)"
  have b: "length (queue ?c') \<le> max_queue_size ?c'" and m: "max_queue_size ?c' = max_queue_size c"
    using Cons.prems by (simp_all add: queueCommand_def)
  from Cons.IH [OF b] m cmd show ?case by simp
qed

theorem queueCommand_at_capacity:
  "(max_queue_size c \<le> length (queue c) \<longrightarrow>
      queueCommand now light_id data c = (c, [LOGW ''Command queue full, dropping command'']))
   \<and> prefix (queue c) (queue (fst (queueCommand now light_id data c)))
   \<and> (length (queue c) \<le> max_queue_size c \<longrightarrow>
      length (queue (fst (queueCommand now light_id data c))) \<le> max_queue_size c
      \<and> length (queue (queueCommands cmds c)) \<le> max_queue_size c)"
proof (intro conjI impI)
  assume "max_queue_size c \<le> length (queue c)"
  then show "queueCommand now light_id data c = (c, [LOGW ''Command queue full, dropping command''])"
    by (simp add: queueCommand_def)
next
  show "prefix (queue c) (queue (fst (queueCommand now light_id data c)))"
    by (simp add: queueCommand_def)
next
  assume "length (queue c) \<le> max_queue_size c"
  then show "length (queue (fst (queueCommand now light_id data c))) \<le> max_queue_size c"
    by (simp add: queueCommand_def)
next
  assume "length (queue c) \<le> max_queue_size c"
  from queueCommands_bounded [OF this, of cmds]
  show "length (queue (queueCommands cmds c)) \<le> max_queue_size c" by simp
qed

theorem queueCommand_at_capacity_witness:
  "queueCommand 1000 7 [1, 2, 3]
      (example_controller\<lparr>queue := [example_command, example_command], max_queue_size := 2\<rparr>)
     = (example_controller\<lparr>queue := [example_command, example_command], max_queue_size := 2\<rparr>,
        [LOGW ''Command queue full, dropping command''])
   \<and> length (queue (queueCommands [(1000, 7, [1, 2, 3]), (1001, 8, [4])]
        (example_controller\<lparr>queue := [example_command, example_command], max_queue_size := 2\<rparr>))) \<le> 2"
  using queueCommand_at_capacity
    [of "example_controller\<lparr>queue := [example_command, example_command], max_queue_size := 2\<rparr>"
        1000 7 "[1, 2, 3]" "[(1000, 7, [1, 2, 3]), (1001, 8, [4])]"]
  by (simp del: queueCommands.simps)

section \<open>Properties of the transmission scheduler\<close>

text \<open>
  Claim C1, at a concrete input. The scheduler is Idle with one queued command and the radio
  refuses the advertisement data (or, second conjunct, refuses to start advertising). The
  tick logs the warning and stays Idle, but the command has already been popped from the
  queue: the queue is empty afterwards, so the next tick, with a working radio, finds
  nothing to send. The frame is not retried.
\<close>

theorem radio_failure_loses_frame:
  "loop 1000 \<lparr>config_err = - 1, start_err = 0\<rparr> (example_controller\<lparr>queue := [example_command]\<rparr>)
     = Some (example_controller\<lparr>queue := []\<rparr>,
             [config_adv_data_raw [2, 1, 6, 6, 0xff, 0xf0, 0xff, 0x8c, 0x36, 0x4d, 0xca],
              LOGW ''Error setting raw advertisement data''])
   \<and> loop 1000 \<lparr>config_err = 0, start_err = - 1\<rparr> (example_controller\<lparr>queue := [example_command]\<rparr>)
     = Some (example_controller\<lparr>queue := []\<rparr>,
             [config_adv_data_raw [2, 1, 6, 6, 0xff, 0xf0, 0xff, 0x8c, 0x36, 0x4d, 0xca],
              start_advertising 0x20 0x40,
              LOGW ''Error starting advertisement''])
   \<and> loop 1001 \<lparr>config_err = 0, start_err = 0\<rparr> (example_controller\<lparr>queue := []\<rparr>)
     = Some (example_controller\<lparr>queue := []\<rparr>, [])"
  by code_simp

section \<open>Properties of the pairing state machine\<close>

lemma phase_transition_cases:
  "phase_transition now c = (c, []) \<or>
   phase_transition now c =
     (c\<lparr>pairing_phase := PAIRING, pairing_phase_start := now, adv_state := IDLE\<rparr>, [stop_advertising])"
  by (simp add: phase_transition_def Let_def)

lemma auto_increment_cases:
  "auto_increment now c = (c, []) \<or>
   auto_increment now c =
     (c\<lparr>pairing_light_id := pairing_base_light_id c + (now - pairing_phase_start c) div 5000,
        sequence_counter := 0x50, adv_state := IDLE\<rparr>, [stop_advertising])"
  by (simp add: auto_increment_def Let_def)

lemma phase_transition_keeps:
  "pairing_mode (fst (phase_transition now c)) = pairing_mode c"
  "pairing_start_time (fst (phase_transition now c)) = pairing_start_time c"
  "set (snd (phase_transition now c)) \<subseteq> {stop_advertising}"
  using phase_transition_cases [of now c] by auto

lemma auto_increment_keeps:
  "pairing_mode (fst (auto_increment now c)) = pairing_mode c"
  "pairing_start_time (fst (auto_increment now c)) = pairing_start_time c"
  "set (snd (auto_increment now c)) \<subseteq> {stop_advertising}"
  using auto_increment_cases [of now c] by auto

lemma pairing_advertise_mode:
  "pairing_mode (fst (pairing_advertise now r c)) = pairing_mode c"
  by (simp add: pairing_advertise_def Let_def build_discovery_advertisement_def
      build_pairing_advertisement_def split: prod.splits)

lemma pairing_tick_timeout:
  assumes "60000 \<le> now - pairing_start_time c"
  shows "pairing_tick now r c =
     ((fst (auto_increment now (fst (phase_transition now c))))\<lparr>pairing_mode := False, adv_state := IDLE\<rparr>,
      snd (phase_transition now c) @ snd (auto_increment now (fst (phase_transition now c)))
        @ [stop_advertising, start_scanning 300])"
  using assms by (simp add: pairing_tick_def Let_def split: prod.splits)

lemma pairing_advertise_effects:
  "start_scanning x \<notin> set (snd (pairing_advertise now r c))"
  by (simp add: pairing_advertise_def Let_def build_discovery_advertisement_def
      build_pairing_advertisement_def split: prod.splits)

lemma pairing_tick_running:
  assumes "now - pairing_start_time c < 60000"
  shows "pairing_tick now r c =
     (fst (pairing_advertise now r (fst (auto_increment now (fst (phase_transition now c))))),
      snd (phase_transition now c) @ snd (auto_increment now (fst (phase_transition now c)))
        @ snd (pairing_advertise now r (fst (auto_increment now (fst (phase_transition now c))))))"
  using assms by (simp add: pairing_tick_def Let_def not_le [symmetric] split: prod.splits)

text \<open>
  Claim C7. In pairing mode, whatever the phase, a tick at which 60000 ms or more have
  passed since the start of the session leaves pairing mode: the radio is told to stop
  advertising and to start scanning (interval 300) as the last two calls, nothing is
  advertised in that tick, the advertising sub-state is Idle, and from then on \<^verbatim>\<open>loop\<close> is
  the normal scheduler. A tick before 60000 ms stays in pairing mode and does not restart
  scanning.
\<close>

theorem pairing_timeout:
  assumes "pairing_mode c"
  shows "(60000 \<le> now - pairing_start_time c \<longrightarrow>
            (\<exists>c' es. loop now r c = Some (c', es @ [stop_advertising, start_scanning 300])
               \<and> \<not> pairing_mode c' \<and> adv_state c' = IDLE
               \<and> set es \<subseteq> {stop_advertising}
               \<and> (\<forall>now' r'. loop now' r' c' = scheduler_tick now' r' c')))
       \<and> (now - pairing_start_time c < 60000 \<longrightarrow>
            (\<exists>c' es. loop now r c = Some (c', es) \<and> pairing_mode c'
               \<and> start_scanning 300 \<notin> set es))"
proof (intro conjI impI)
  assume t: "60000 \<le> now - pairing_start_time c"
  let ?c1 = "fst (phase_transition now c)"
  let ?c2 = "fst (auto_increment now ?c1)"
  let ?c' = "?c2\<lparr>pairing_mode := False, adv_state := IDLE\<rparr>"
  let ?es = "snd (phase_transition now c) @ snd (auto_increment now ?c1)"
  have l: "loop now r c = Some (?c', ?es @ [stop_advertising, start_scanning 300])"
    using assms pairing_tick_timeout [OF t, of r] by (simp add: loop_def)
  have e: "set ?es \<subseteq> {stop_advertising}"
    using phase_transition_keeps(3) [of now c] auto_increment_keeps(3) [of now ?c1] by auto
  have n: "\<forall>now' r'. loop now' r' ?c' = scheduler_tick now' r' ?c'"
    by (simp add: loop_def)
  from l e n show "\<exists>c' es. loop now r c = Some (c', es @ [stop_advertising, start_scanning 300])
               \<and> \<not> pairing_mode c' \<and> adv_state c' = IDLE
               \<and> set es \<subseteq> {stop_advertising}
               \<and> (\<forall>now' r'. loop now' r' c' = scheduler_tick now' r' c')"
    by (intro exI [of _ ?c'] exI [of _ ?es]) simp
next
  assume t: "now - pairing_start_time c < 60000"
  let ?c1 = "fst (phase_transition now c)"
  let ?c2 = "fst (auto_increment now ?c1)"
  have m: "pairing_mode (fst (pairing_advertise now r ?c2))"
    using assms by (simp add: pairing_advertise_mode auto_increment_keeps phase_transition_keeps)
  have e: "start_scanning 300 \<notin> set (snd (phase_transition now c))"
          "start_scanning 300 \<notin> set (snd (auto_increment now ?c1))"
    using phase_transition_keeps(3) [of now c] auto_increment_keeps(3) [of now ?c1] by auto
  show "\<exists>c' es. loop now r c = Some (c', es) \<and> pairing_mode c' \<and> start_scanning 300 \<notin> set es"
    using assms m e pairing_advertise_effects [of 300 now r ?c2]
    by (simp add: loop_def pairing_tick_running [OF t])
qed

theorem pairing_timeout_witness:
  "(\<exists>c' es. loop 60000 \<lparr>config_err = 0, start_err = 0\<rparr> (fst (pair_device 0 5 1 example_controller))
        = Some (c', es @ [stop_advertising, start_scanning 300])
      \<and> \<not> pairing_mode c' \<and> adv_state c' = IDLE
      \<and> set es \<subseteq> {stop_advertising}
      \<and> (\<forall>now' r'. loop now' r' c' = scheduler_tick now' r' c'))
   \<and> (\<exists>c' es. loop 59999 \<lparr>config_err = 0, start_err = 0\<rparr> (fst (pair_device 0 5 1 example_controller))
        = Some (c', es) \<and> pairing_mode c' \<and> start_scanning 300 \<notin> set es)"
  using pairing_timeout [of "fst (pair_device 0 5 1 example_controller)" 60000
      "\<lparr>config_err = 0, start_err = 0\<rparr>"]
    pairing_timeout [of "fst (pair_device 0 5 1 example_controller)" 59999
      "\<lparr>config_err = 0, start_err = 0\<rparr>"]
  by (simp add: pair_device_def)

subsection \<open>The pairing advertisement\<close>

lemma le16_bytes:
  "unat (ucast (x AND 0xFF) :: byte) + 256 * unat (ucast (drop_bit 8 x AND 0xFF) :: byte)
     = unat (x::u32) mod 65536"
proof -
  have m: "(0xFF :: u32) = mask 8" by (simp add: mask_eq_exp_minus_1)
  have lo: "unat (ucast (x AND 0xFF) :: byte) = unat x mod 256"
    unfolding m by (simp add: unsigned_ucast_eq take_bit_eq_mod unat_mod flip: take_bit_eq_mask)
  have hi: "unat (ucast (drop_bit 8 x AND 0xFF) :: byte) = unat x div 256 mod 256"
    unfolding m by (simp add: unsigned_ucast_eq take_bit_eq_mod unsigned_drop_bit_eq drop_bit_eq_div unat_mod unat_div flip: take_bit_eq_mask)
  have "unat x mod 256 + 256 * (unat x div 256 mod 256) = unat x mod 65536"
    by (simp add: mod_mult2_eq [of "unat x" 256 256, simplified])
  with lo hi show ?thesis by simp
qed

lemma map_upt4: "map f [0..<4] = [f 0, f 1, f 2, f 3]"
proof -
  have "[0..<4] = [0, 1, 2, 3]" by (simp add: upt_conv_Cons numeral_2_eq_2 numeral_3_eq_3)
  then show ?thesis by simp
qed

lemma build_pairing_advertisement_layout:
  "fst (build_pairing_advertisement c) =
     [0x66, 0x55, 0x44, 0x33, 0x22, 0x11, 0x02, 0x01, 0x1a, 0x13, 0xff, 0xf0, 0xff, 0x6e,
      pairing_counter c,
      ucast (pairing_light_id c AND 0xFF), ucast (drop_bit 8 (pairing_light_id c) AND 0xFF),
      0x44, 0x10, 0x33, 0x32, 0x34, 0x0a, 0x39, 0x39,
      key_at (mesh_key c) 0, key_at (mesh_key c) 1, key_at (mesh_key c) 2, key_at (mesh_key c) 3]
     @ drop 29 (fst (build_pairing_advertisement c))
   \<and> length (fst (build_pairing_advertisement c)) = 32"
  by (simp add: build_pairing_advertisement_def Let_def map_upt4)

text \<open>
  Claim C5, as the code has it. In the Pairing phase the advertisement built is 32 bytes
  long with the command byte \<^verbatim>\<open>0x6e\<close>; bytes 15 and 16 are the low 16 bits of the current
  light id, low byte first; bytes 23 to 28 are the characters \<^verbatim>\<open>99\<close> followed by the four
  bytes of the mesh key, copied unchanged (no conversion to hexadecimal digits). Whatever
  advertisement data the pairing step hands to the radio in this phase is bytes 6 to 30 of
  that advertisement.
\<close>

theorem pairing_advertisement_contents:
  assumes "pairing_phase c = PAIRING"
  shows "(let adv = fst (build_pairing_advertisement c)
          in length adv = 32 \<and> adv ! 13 = 0x6e
           \<and> unat (adv ! 15) + 256 * unat (adv ! 16) = unat (pairing_light_id c) mod 65536
           \<and> take 6 (drop 23 adv) =
               [0x39, 0x39, key_at (mesh_key c) 0, key_at (mesh_key c) 1,
                key_at (mesh_key c) 2, key_at (mesh_key c) 3])
       \<and> (\<forall>raw. config_adv_data_raw raw \<in> set (snd (pairing_advertise now r c)) \<longrightarrow>
             raw = take 25 (drop 6 (fst (build_pairing_advertisement c))))"
proof -
  obtain rest where adv: "fst (build_pairing_advertisement c) =
     [0x66, 0x55, 0x44, 0x33, 0x22, 0x11, 0x02, 0x01, 0x1a, 0x13, 0xff, 0xf0, 0xff, 0x6e,
      pairing_counter c,
      ucast (pairing_light_id c AND 0xFF), ucast (drop_bit 8 (pairing_light_id c) AND 0xFF),
      0x44, 0x10, 0x33, 0x32, 0x34, 0x0a, 0x39, 0x39,
      key_at (mesh_key c) 0, key_at (mesh_key c) 1, key_at (mesh_key c) 2, key_at (mesh_key c) 3]
     @ rest" and len: "length (fst (build_pairing_advertisement c)) = 32"
    using build_pairing_advertisement_layout [of c] by blast
  have a: "(let adv = fst (build_pairing_advertisement c)
          in length adv = 32 \<and> adv ! 13 = 0x6e
           \<and> unat (adv ! 15) + 256 * unat (adv ! 16) = unat (pairing_light_id c) mod 65536
           \<and> take 6 (drop 23 adv) =
               [0x39, 0x39, key_at (mesh_key c) 0, key_at (mesh_key c) 1,
                key_at (mesh_key c) 2, key_at (mesh_key c) 3])"
    unfolding Let_def
    apply (intro conjI)
       apply (rule len)
      apply (simp add: adv)
     apply (simp add: adv le16_bytes)
    apply (simp add: adv)
    done
  have b: "\<forall>raw. config_adv_data_raw raw \<in> set (snd (pairing_advertise now r c)) \<longrightarrow>
             raw = take 25 (drop 6 (fst (build_pairing_advertisement c)))"
    using assms len
    by (auto simp: pairing_advertise_def Let_def split: prod.splits if_splits)
  from a b show ?thesis by simp
qed

theorem pairing_advertisement_contents_witness:
  "take 6 (drop 23 (fst (build_pairing_advertisement
       (example_controller\<lparr>pairing_phase := PAIRING, pairing_light_id := 0x6359\<rparr>))))
     = [0x39, 0x39, 0x30, 0x32, 0x33, 0x36]
   \<and> unat (fst (build_pairing_advertisement
       (example_controller\<lparr>pairing_phase := PAIRING, pairing_light_id := 0x6359\<rparr>)) ! 15)
     + 256 * unat (fst (build_pairing_advertisement
       (example_controller\<lparr>pairing_phase := PAIRING, pairing_light_id := 0x6359\<rparr>)) ! 16)
     = 0x6359"
  using pairing_advertisement_contents
    [of "example_controller\<lparr>pairing_phase := PAIRING, pairing_light_id := 0x6359\<rparr>"]
  by (simp add: Let_def example_controller_def)

text \<open>
  Claim C5 as stated fails: for the mesh key \<^verbatim>\<open>30 32 33 36\<close> the ASCII-hex form is the eight
  characters \<^verbatim>\<open>30323336\<close>, which occur nowhere in the pairing advertisement.
\<close>

theorem pairing_key_not_ascii_hex:
  "ascii_hex [0x30, 0x32, 0x33, 0x36] = [0x33, 0x30, 0x33, 0x32, 0x33, 0x33, 0x33, 0x36]
   \<and> mesh_key example_controller = Key4 0x30 0x32 0x33 0x36
   \<and> \<not> sublist (ascii_hex [0x30, 0x32, 0x33, 0x36])
        (fst (build_pairing_advertisement (example_controller\<lparr>pairing_phase := PAIRING\<rparr>)))"
  by code_simp

subsection \<open>Light-id slots\<close>

lemma auto_increment_light_id:
  "pairing_phase c = PAIRING \<Longrightarrow>
   pairing_light_id (fst (auto_increment now c)) =
     pairing_base_light_id c + (now - pairing_phase_start c) div 5000"
  by (simp add: auto_increment_def Let_def)

text \<open>
  Claim C6, at a concrete input. A session starts at time 0 with base light id 5 and enters
  the Pairing phase at 4000 ms. After three pairing advertisements the per-packet counter
  stands at \<^verbatim>\<open>0x53\<close>. At 9000 ms (5000 ms into the phase) the light id moves to 6 and the
  member \<^verbatim>\<open>sequence_counter_\<close> is set to \<^verbatim>\<open>0x50\<close>, but the advertisement sent in that tick
  carries the counter byte \<^verbatim>\<open>0x53\<close>: the counter that the advertisement uses is the static
  \<^verbatim>\<open>pairing_counter\<close>, which the increment does not reset.
\<close>

theorem light_id_increment_keeps_counter:
  "(let r = \<lparr>config_err = 0, start_err = 0\<rparr>;
        c0 = fst (pair_device 0 5 1 example_controller);
        c1 = fst (pairing_tick 4000 r c0);
        c2 = fst (pairing_tick 4100 r c1);
        c3 = fst (pairing_tick 8999 r c2);
        c4 = fst (pairing_tick 9000 r c3)
    in pairing_phase c3 = PAIRING \<and> pairing_light_id c3 = 5 \<and> pairing_counter c3 = 0x53
     \<and> pairing_light_id c4 = 6 \<and> sequence_counter c4 = 0x50
     \<and> snd (pairing_tick 9000 r c3) =
         [stop_advertising,
          config_adv_data_raw
            [0x02, 0x01, 0x1a, 0x13, 0xff, 0xf0, 0xff, 0x6e, 0x53, 0x06, 0x00,
             0x44, 0x10, 0x33, 0x32, 0x34, 0x0a, 0x39, 0x39, 0x30, 0x32, 0x33, 0x36,
             0x36, 0x40],
          start_advertising 0x20 0x40]
     \<and> pairing_counter c4 = 0x54)"
  by code_simp

section \<open>Properties of the light-state encoder\<close>

lemma pow2_pos: "0 < pow2 e"
  by (simp add: pow2_def)

lemma round_half_even_nonneg: "0 \<le> x \<Longrightarrow> 0 \<le> round_half_even x"
proof -
  assume "0 \<le> x"
  then have "0 \<le> \<lfloor>x\<rfloor>" by simp
  then show ?thesis by (simp add: round_half_even_def Let_def)
qed

lemma round_f32_nonneg: "0 \<le> x \<Longrightarrow> 0 \<le> round_f32 x"
proof -
  assume x: "0 \<le> x"
  have "0 \<le> of_int (round_half_even (x / pow2 e)) * pow2 e" for e
  proof -
    have "0 \<le> x / pow2 e" using x pow2_pos [of e] by simp
    then have "0 \<le> round_half_even (x / pow2 e)" by (rule round_half_even_nonneg)
    then have "(0::rat) \<le> of_int (round_half_even (x / pow2 e))" by simp
    then show ?thesis using pow2_pos [of e] by (simp add: mult_nonneg_nonneg less_imp_le)
  qed
  then show ?thesis by (simp add: round_f32_def Let_def)
qed

lemma f2u8_small:
  assumes "0 \<le> x" "x \<le> 127"
  shows "unat (f2u8 x) = nat \<lfloor>x\<rfloor>"
proof -
  have f: "0 \<le> \<lfloor>x\<rfloor>" "\<lfloor>x\<rfloor> \<le> 127" using assms by (simp_all add: floor_le_iff)
  then have "\<lfloor>x\<rfloor> mod 256 = \<lfloor>x\<rfloor>" by simp
  then show ?thesis using assms(1) by (simp add: f2u8_def unat_eq_nat_uint uint_word_of_int)
qed

lemma white_mode_never_sets_on_bit:
  assumes "is_on v" and "get_color_mode v AND WHITE \<noteq> 0" and "0 \<le> get_brightness v"
  shows "get_light_data v = [f2u8 (min (f32_mul (get_brightness v) 127) 127)]
       \<and> unat (f2u8 (min (f32_mul (get_brightness v) 127) 127)) < 128"
proof -
  let ?b = "min (f32_mul (get_brightness v) 127) 127"
  have "0 \<le> f32_mul (get_brightness v) 127"
    unfolding f32_mul_def using assms(3) by (intro round_f32_nonneg) simp
  then have r: "0 \<le> ?b" "?b \<le> 127" by simp_all
  have u: "unat (f2u8 ?b) = nat \<lfloor>?b\<rfloor>" by (rule f2u8_small [OF r])
  have "\<lfloor>?b\<rfloor> \<le> 127" using r(2) by (simp add: floor_le_iff)
  then have "nat \<lfloor>?b\<rfloor> < 128" by linarith
  with u assms(1,2) show ?thesis by (simp add: get_light_data_def Let_def)
qed

lemma white_mode_rounds_in_binary32:
  "get_light_data \<lparr>is_on = True, get_color_mode = 7, get_brightness = 2113665 / 2 ^ 28,
      get_red = 1, get_green = 1, get_blue = 1, get_warm_white = 0, get_cold_white = 0,
      get_color_temperature = 300\<rparr> = [0x01]"
  by code_simp

text \<open>
  Claim C8, at a concrete input. A light that is on at full brightness in a colour mode that
  includes white: \<^verbatim>\<open>get_light_data\<close> short-circuits and returns one byte and no colour
  bytes, but the byte is \<^verbatim>\<open>0x7F\<close>, the capped brightness alone, not \<^verbatim>\<open>0x80 | 0x7F\<close>. The
  \<^verbatim>\<open>0x80\<close> is added to \<^verbatim>\<open>light_data[0]\<close> on the line before, and the white branch returns a
  fresh vector without it. The same state in an RGB mode (third conjunct) takes the
  sibling path and starts with \<^verbatim>\<open>0xFF\<close>.
\<close>

theorem white_mode_drops_on_bit:
  "get_light_data \<lparr>is_on = True, get_color_mode = 7, get_brightness = 1, get_red = 1,
      get_green = 1, get_blue = 1, get_warm_white = 0, get_cold_white = 0,
      get_color_temperature = 300\<rparr> = [0x7F]
   \<and> [0x7F] \<noteq> [0x80 OR (0x7F :: byte)]
   \<and> get_light_data \<lparr>is_on = True, get_color_mode = 35, get_brightness = 1, get_red = 1,
      get_green = 1, get_blue = 1, get_warm_white = 0, get_cold_white = 0,
      get_color_temperature = 300\<rparr> = [0xFF, 0xFF, 0xFF, 0xFF, 0x00, 0x00]"
  by code_simp

section \<open>Properties of the debounce layer\<close>

lemma light_run_append:
  "light_run l (es1 @ es2) =
     (fst (light_run (fst (light_run l es1)) es2),
      snd (light_run l es1) @ snd (light_run (fst (light_run l es1)) es2))"
proof (induction l es1 rule: light_run.induct)
  case (1 l)
  then show ?case by simp
next
  case (2 l adv_data now es)
  then show ?case by simp
next
  case (3 l now es)
  then show ?case by (simp split: prod.splits)
qed

lemma light_loop_cases:
  "light_loop now l = (l, None)
   \<or> (pending_data l = last_sent_data l \<and> light_loop now l = (l\<lparr>has_pending_command := False\<rparr>, None))
   \<or> (has_pending_command l \<and> pending_data l \<noteq> last_sent_data l \<and>
      light_loop now l =
        (l\<lparr>last_sent_data := pending_data l, last_command_sent := now,
           has_pending_command := False\<rparr>, Some (pending_data l)))"
  by (simp add: light_loop_def Let_def)

lemma light_loop_duplicate: "pending_data l = last_sent_data l \<Longrightarrow> snd (light_loop now l) = None"
  by (simp add: light_loop_def Let_def)

lemma light_loop_idle: "\<not> has_pending_command l \<Longrightarrow> light_loop now l = (l, None)"
  by (simp add: light_loop_def)

lemma ticks_settled:
  assumes "\<not> has_pending_command l \<or> pending_data l = last_sent_data l"
  shows "snd (light_run l (map Tick ts)) = []
       \<and> pending_data (fst (light_run l (map Tick ts))) = pending_data l
       \<and> last_sent_data (fst (light_run l (map Tick ts))) = last_sent_data l"
  using assms
proof (induction ts arbitrary: l)
  case Nil
  then show ?case by simp
next
  case (Cons t ts)
  obtain l' sent where ll: "light_loop t l = (l', sent)" by (cases "light_loop t l")
  have s: "sent = None \<and> pending_data l' = pending_data l \<and> last_sent_data l' = last_sent_data l
           \<and> (\<not> has_pending_command l' \<or> pending_data l' = last_sent_data l')"
    using Cons.prems ll light_loop_cases [of t l] light_loop_idle [of l t] by auto
  then have inv: "\<not> has_pending_command l' \<or> pending_data l' = last_sent_data l'" by blast
  have run: "light_run l (map Tick (t # ts)) =
      (fst (light_run l' (map Tick ts)), snd (light_run l' (map Tick ts)))"
    using ll s by (simp split: prod.splits)
  from Cons.IH [OF inv] s show ?case unfolding run by simp
qed

lemma ticks_at_most_one:
  "(snd (light_run l (map Tick ts)) = []
      \<and> last_sent_data (fst (light_run l (map Tick ts))) = last_sent_data l
    \<or> snd (light_run l (map Tick ts)) = [pending_data l]
      \<and> last_sent_data (fst (light_run l (map Tick ts))) = pending_data l)
   \<and> pending_data (fst (light_run l (map Tick ts))) = pending_data l"
proof (induction ts arbitrary: l)
  case Nil
  then show ?case by simp
next
  case (Cons t ts)
  consider (same) "light_loop t l = (l, None)"
    | (dup) "pending_data l = last_sent_data l"
        "light_loop t l = (l\<lparr>has_pending_command := False\<rparr>, None)"
    | (sent) "light_loop t l =
        (l\<lparr>last_sent_data := pending_data l, last_command_sent := t,
           has_pending_command := False\<rparr>, Some (pending_data l))"
    using light_loop_cases [of t l] by blast
  then show ?case
  proof cases
    case same
    then have run: "light_run l (map Tick (t # ts)) =
        (fst (light_run l (map Tick ts)), snd (light_run l (map Tick ts)))"
      by (simp split: prod.splits)
    from Cons.IH [of l] show ?thesis unfolding run by simp
  next
    case dup
    let ?l' = "l\<lparr>has_pending_command := False\<rparr>"
    have run: "light_run l (map Tick (t # ts)) =
        (fst (light_run ?l' (map Tick ts)), snd (light_run ?l' (map Tick ts)))"
      using dup by (simp split: prod.splits)
    have "\<not> has_pending_command ?l' \<or> pending_data ?l' = last_sent_data ?l'" by simp
    from ticks_settled [OF this, of ts] show ?thesis unfolding run by simp
  next
    case sent
    let ?l' = "l\<lparr>last_sent_data := pending_data l, last_command_sent := t,
           has_pending_command := False\<rparr>"
    have run: "light_run l (map Tick (t # ts)) =
        (fst (light_run ?l' (map Tick ts)), pending_data l # snd (light_run ?l' (map Tick ts)))"
      using sent by (simp split: prod.splits)
    have "\<not> has_pending_command ?l' \<or> pending_data ?l' = last_sent_data ?l'" by simp
    from ticks_settled [OF this, of ts] show ?thesis unfolding run by simp
  qed
qed

lemma two_updates_at_most_one:
  "length (snd (light_run l (Update d t1 # map Tick ts1 @ Update d t2 # map Tick ts2))) \<le> 1"
proof -
  let ?l1 = "write_state t1 d l"
  let ?l2 = "fst (light_run ?l1 (map Tick ts1))"
  let ?o1 = "snd (light_run ?l1 (map Tick ts1))"
  let ?l3 = "write_state t2 d ?l2"
  let ?o2 = "snd (light_run ?l3 (map Tick ts2))"
  have out: "snd (light_run l (Update d t1 # map Tick ts1 @ Update d t2 # map Tick ts2)) = ?o1 @ ?o2"
    by (simp add: light_run_append)
  have p1: "pending_data ?l1 = d" by (simp add: write_state_def)
  have p3: "pending_data ?l3 = d" "last_sent_data ?l3 = last_sent_data ?l2"
    by (simp_all add: write_state_def)
  from ticks_at_most_one [of ?l1 ts1] p1
  consider (none) "?o1 = []" | (one) "?o1 = [d]" "last_sent_data ?l2 = d" by auto
  then show ?thesis
  proof cases
    case none
    from ticks_at_most_one [of ?l3 ts2] have "length ?o2 \<le> 1" by auto
    with none out show ?thesis by simp
  next
    case one
    with p3 have "pending_data ?l3 = last_sent_data ?l3" by simp
    from ticks_settled [of ?l3 ts2] this have "?o2 = []" by simp
    with one out show ?thesis by simp
  qed
qed

text \<open>
  Claim C9. For one light, starting from any state: two state updates with the same encoded
  payload, with any polling ticks after each, hand at most one command to the queue. A tick
  never hands over a pending command whose bytes equal the last-sent bytes; once both
  timing guards have passed it clears the pending flag instead.
\<close>

theorem dedup_identical_updates:
  "length (snd (light_run l (Update d t1 # map Tick ts1 @ Update d t2 # map Tick ts2))) \<le> 1
   \<and> (pending_data l = last_sent_data l \<longrightarrow> snd (light_loop now l) = None)
   \<and> (has_pending_command l \<and> pending_data l = last_sent_data l
        \<and> DEBOUNCE_MS \<le> now - last_state_change l \<and> MIN_INTERVAL_MS \<le> now - last_command_sent l
      \<longrightarrow> light_loop now l = (l\<lparr>has_pending_command := False\<rparr>, None))"
  using two_updates_at_most_one [of l d t1 ts1 t2 ts2]
  by (simp add: light_loop_def Let_def not_less [symmetric])

theorem dedup_identical_updates_witness:
  "snd (light_run example_light
      (Update [0x7f] 1000 # map Tick [1050, 1100, 1150] @ Update [0x7f] 1200 # map Tick [1250, 1300, 1500]))
     = [[0x7f]]
   \<and> light_loop 1500 \<lparr>last_sent_data = [0x7f], pending_data = [0x7f], last_state_change = 1200,
        last_command_sent = 1100, has_pending_command = True\<rparr>
     = (\<lparr>last_sent_data = [0x7f], pending_data = [0x7f], last_state_change = 1200,
        last_command_sent = 1100, has_pending_command = False\<rparr>, None)"
proof -
  have a: "snd (light_run example_light
      (Update [0x7f] 1000 # map Tick [1050, 1100, 1150] @ Update [0x7f] 1200 # map Tick [1250, 1300, 1500]))
     = [[0x7f]]"
    by code_simp
  show ?thesis
    using a dedup_identical_updates [of "\<lparr>last_sent_data = [0x7f], pending_data = [0x7f], last_state_change = 1200,
        last_command_sent = 1100, has_pending_command = True\<rparr>" "[0x7f]" 1000 "[1050, 1100, 1150]" 1200 "[1250, 1300, 1500]" 1500]
    by (simp add: DEBOUNCE_MS_def MIN_INTERVAL_MS_def)
qed

end
